theory Spec2Isabelle
  imports Main "HOL-Library.Word" "HOL-Library.Multiset"
begin

section \<open>Python values used by the download engine\<close>

text \<open>
  The embedding follows \<^verbatim>\<open>azure/storage/blob/aio/_download_async.py\<close>.
  Python integers are \<^typ>\<open>int\<close>, a \<^verbatim>\<open>bytes\<close> value is a list of 8-bit words
  and a \<^verbatim>\<open>str\<close> value is a list of code points.  Exceptions are values of the
  type \<open>error\<close>; a method that mutates the object returns the updated record next to
  its result, also when it raises.
\<close>

type_synonym byte = "8 word"

datatype data = Bytes "byte list" | Text "nat list"

text \<open>Clamping of one bound of a Python slice \<^verbatim>\<open>xs[i:j]\<close> on a sequence of length \<open>n\<close>.\<close>

definition py_index :: "int \<Rightarrow> int \<Rightarrow> nat" where
  "py_index n i = nat (if i < 0 then max (i + n) 0 else min i n)"

definition py_slice :: "'a list \<Rightarrow> int \<Rightarrow> int \<Rightarrow> 'a list" where
  "py_slice xs i j =
     (let n = int (length xs); a = py_index n i; b = py_index n j
      in take (b - a) (drop a xs))"

fun len :: "data \<Rightarrow> int" where
  "len (Bytes b) = int (length b)"
| "len (Text t) = int (length t)"

fun slice :: "data \<Rightarrow> int \<Rightarrow> int \<Rightarrow> data" where
  "slice (Bytes b) i j = Bytes (py_slice b i j)"
| "slice (Text t) i j = Text (py_slice t i j)"

text \<open>\<^verbatim>\<open>sys.maxsize\<close> on a 64-bit interpreter.\<close>

definition sys_maxsize :: int where
  "sys_maxsize = 2 ^ 63 - 1"

subsection \<open>Errors\<close>

text \<open>
  The \<^verbatim>\<open>ValueError\<close>s raised for a wrong use of the stream carry the reason:
  \<^item> \<open>BothSizeAndChars\<close>: "Cannot specify both size and chars."
  \<^item> \<open>EncodingRequired\<close>: "Must specify encoding to read chars."
  \<^item> \<open>TextModeUseChars\<close>: "Stream has been partially read in text mode. Please use chars."
  \<^item> \<open>BytesModeUseSize\<close>: "Stream has been partially read in bytes mode. Please use size."
  \<^item> \<open>TextModeReadinto\<close>: "... readinto is not supported in text mode."
  \<^item> \<open>TextModeChunks\<close>: "... chunks is not supported in text mode."
  \<^item> \<open>NotSeekable\<close>: "Target stream handle must be seekable."
  \<^item> \<open>MissingContentRange\<close>: "Required Content-Range response header is missing or malformed."
  \<^item> \<open>IsliceStop\<close>: the \<^verbatim>\<open>ValueError\<close> of \<^verbatim>\<open>itertools.islice\<close> for a negative stop.

  \<open>HttpResponseError status has_response\<close> is \<^verbatim>\<open>azure.core.exceptions.HttpResponseError\<close>
  with its \<^verbatim>\<open>status_code\<close> and whether \<^verbatim>\<open>error.response\<close> is set.
  \<^verbatim>\<open>process_storage_error\<close> (not part of the sources at hand) always raises; it is
  modelled as raising the error it was given.
\<close>

datatype usage =
    BothSizeAndChars | EncodingRequired | TextModeUseChars | BytesModeUseSize
  | TextModeReadinto | TextModeChunks | NotSeekable | MissingContentRange | IsliceStop

datatype error =
    ValueError usage
  | TypeError
  | HttpResponseError (status_code: int) (has_response: bool)
  | DecryptionFailed
  | UnicodeDecodeError

subsection \<open>The service and the encryption provider\<close>

text \<open>
  The two collaborators of the engine are parameters of the model.  A response carries
  what the engine reads from it: \<^verbatim>\<open>response.response.body()\<close>,
  \<^verbatim>\<open>response.content_length\<close>, the total length parsed from the content range by
  \<^verbatim>\<open>parse_length_from_content_range\<close> (\<open>None\<close> when missing or malformed), and
  whether \<^verbatim>\<open>response.properties.blob_type == 'PageBlob'\<close>.
\<close>

record response =
  body :: "byte list"
  content_length :: int
  content_range :: "int option"
  page_blob :: bool

datatype encryption_data = EncryptionV1 | EncryptionV2

text \<open>The network calls the engine issues, in the order it issues them.\<close>

datatype request =
    Download "(int \<times> int) option"
  | GetPageRanges
  | GetProperties

text \<open>
  \<^item> \<open>download\<close>: \<^verbatim>\<open>clients.blob.download(range=...)\<close>, the range as the inclusive pair
    given to \<^verbatim>\<open>validate_and_format_range_headers\<close>, \<open>None\<close> for a request without
    a range;
  \<^item> \<open>get_page_ranges\<close>: \<^verbatim>\<open>get_page_ranges_result(page_blob.get_page_ranges())[0]\<close>, the
    ranges as pairs \<open>(start, end)\<close>;
  \<^item> \<open>get_properties\<close>: \<^verbatim>\<open>parse_encryption_data(properties.metadata)\<close> of the
    properties request;
  \<^item> \<open>encryption_key\<close>: whether the encryption options hold a key or a resolver;
  \<^item> \<open>process_range_and_offset\<close>, \<open>decrypt_blob\<close> (\<open>None\<close> when it raises),
    \<open>adjust_blob_size_for_encryption\<close>: the functions of these names in
    \<^verbatim>\<open>_download.py\<close> and \<^verbatim>\<open>_encryption.py\<close>, which the sources at hand do not
    include;
  \<^item> \<open>buffer_decode\<close>: the codec of the configured encoding, as
    \<^verbatim>\<open>codecs.BufferedIncrementalDecoder._buffer_decode\<close>: the decoded text and the
    number of bytes consumed, \<open>None\<close> for a \<^verbatim>\<open>UnicodeDecodeError\<close>;
  \<^item> \<open>wait\<close>: which of the running chunk tasks \<^verbatim>\<open>asyncio.wait\<close> reports as done.
\<close>

record env =
  download :: "(int \<times> int) option \<Rightarrow> error + response"
  get_page_ranges :: "error + (int \<times> int) list"
  get_properties :: "error + encryption_data option"
  encryption_key :: bool
  process_range_and_offset ::
    "int \<Rightarrow> int \<Rightarrow> int option \<Rightarrow> encryption_data option \<Rightarrow> (int \<times> int) \<times> (int \<times> int)"
  decrypt_blob :: "byte list \<Rightarrow> int \<Rightarrow> int \<Rightarrow> byte list option"
  adjust_blob_size_for_encryption :: "int \<Rightarrow> encryption_data option \<Rightarrow> int"
  buffer_decode :: "byte list \<Rightarrow> bool \<Rightarrow> (nat list \<times> nat) option"
  wait :: "int list \<Rightarrow> int list"

text \<open>\<^verbatim>\<open>is_encryption_v2\<close> of \<^verbatim>\<open>_encryption.py\<close>, on the parsed encryption data.\<close>

fun is_encryption_v2 :: "encryption_data option \<Rightarrow> bool" where
  "is_encryption_v2 (Some EncryptionV2) = True"
| "is_encryption_v2 _ = False"

definition process_content :: "env \<Rightarrow> response \<Rightarrow> int \<Rightarrow> int \<Rightarrow> error + byte list" where
  "process_content e resp start_offset end_offset =
     (let content = body resp in
      if encryption_key e then
        (case decrypt_blob e content start_offset end_offset of
           None \<Rightarrow> Inl DecryptionFailed
         | Some plain \<Rightarrow> Inr plain)
      else Inr content)"

section \<open>The chunk downloader\<close>

subsection \<open>Streams\<close>

text \<open>
  A binary stream (\<^verbatim>\<open>BytesIO\<close>, or the stream the caller hands to \<^verbatim>\<open>readinto\<close>):
  its contents, its position, what \<^verbatim>\<open>seekable()\<close> answers and whether
  \<^verbatim>\<open>seek\<close>/\<^verbatim>\<open>tell\<close> raise \<^verbatim>\<open>NotImplementedError\<close> or \<^verbatim>\<open>AttributeError\<close>.
  Writing at a position beyond the end pads with zero bytes, as \<^verbatim>\<open>BytesIO\<close> does.
\<close>

record bstream =
  contents :: "byte list"
  position :: nat
  seekable :: bool
  seek_raises :: bool

definition write_bytes :: "bstream \<Rightarrow> byte list \<Rightarrow> bstream" where
  "write_bytes st d =
     (let p = position st; c = contents st
      in st\<lparr>contents := take p c @ replicate (p - length c) 0 @ d @ drop (p + length d) c,
            position := p + length d\<rparr>)"

definition seek :: "bstream \<Rightarrow> int \<Rightarrow> bstream" where
  "seek st p = st\<lparr>position := nat p\<rparr>"

definition BytesIO :: bstream where
  "BytesIO = \<lparr>contents = [], position = 0, seekable = True, seek_raises = False\<rparr>"

text \<open>
  The stream a chunk downloader writes to: a binary stream, or the \<^verbatim>\<open>StringIO\<close> of a
  read in text mode, which is only ever appended to.
\<close>

datatype ostream = BinaryStream bstream | StringIO "nat list"

fun write_stream :: "ostream \<Rightarrow> data \<Rightarrow> error + (ostream \<times> int)" where
  "write_stream (BinaryStream st) (Bytes d) = Inr (BinaryStream (write_bytes st d), int (length d))"
| "write_stream (StringIO t) (Text d) = Inr (StringIO (t @ d), int (length d))"
| "write_stream _ _ = Inl TypeError"

fun getvalue :: "ostream \<Rightarrow> data" where
  "getvalue (BinaryStream st) = Bytes (contents st)"
| "getvalue (StringIO t) = Text t"

subsection \<open>The download plan\<close>

text \<open>
  \<^verbatim>\<open>_AsyncChunkDownloader\<close> extends \<^verbatim>\<open>_ChunkDownloader\<close> of \<^verbatim>\<open>_download.py\<close>, which
  is not among the sources at hand.  Its fields are the constructor arguments the
  facade passes; \<open>stream_start\<close> is the position of the stream when the downloader is
  created, \<open>cd_requests\<close> records the network calls the downloader has issued and
  \<open>cd_events\<close> records when a task for a chunk offset was started
  (\<^verbatim>\<open>asyncio.ensure_future(downloader.process_chunk(d))\<close>) and when it was done.
\<close>

datatype event = Started int | Finished int

record chunk_downloader =
  chunk_size :: int
  start_index :: int
  end_index :: int
  cd_non_empty_ranges :: "(int \<times> int) list option"
  cd_encryption_data :: "encryption_data option"
  parallel :: bool
  stream :: ostream
  stream_start :: nat
  cd_requests :: "request list"
  cd_events :: "event list"

text \<open>
  Modelled from the spec: \<^verbatim>\<open>_ChunkDownloader.get_chunk_offsets\<close>, which is missing
  from the sources.  The spec: "maintain a lazy sequence of chunk start offsets (chunk
  size is fixed except for the final, possibly shorter, chunk)", over a plan
  \<open>{chunk_size, start_offset, end_offset}\<close> whose end is exclusive.
\<close>

function get_chunk_offsets :: "int \<Rightarrow> int \<Rightarrow> int \<Rightarrow> int list" where
  "get_chunk_offsets index end_ix csize =
     (if 0 < csize \<and> index < end_ix
      then index # get_chunk_offsets (index + csize) end_ix csize
      else [])"
  by pat_completeness auto
termination
  by (relation "measure (\<lambda>(i, e, c). nat (e - i))") auto

text \<open>
  Modelled from the spec: \<^verbatim>\<open>_ChunkDownloader._calculate_range\<close>, which is missing from
  the sources: a chunk runs from its start offset for \<open>chunk_size\<close> bytes, the final
  chunk being possibly shorter (it stops at the end of the plan).  The end is exclusive.
\<close>

definition calculate_range :: "chunk_downloader \<Rightarrow> int \<Rightarrow> int \<times> int" where
  "calculate_range cd chunk_start =
     (if chunk_start + chunk_size cd > end_index cd
      then (chunk_start, end_index cd)
      else (chunk_start, chunk_start + chunk_size cd))"

text \<open>
  Modelled from the spec: \<^verbatim>\<open>_ChunkDownloader._do_optimize\<close>, which is missing from the
  sources.  The spec: "given \<open>non_empty_ranges\<close> (sorted, disjoint) and a candidate wire
  sub-range, decide whether the sub-range lies entirely outside all non-empty ranges".
  Without a range map nothing is known to be empty.
\<close>

definition outside :: "int \<times> int \<Rightarrow> int \<Rightarrow> int \<Rightarrow> bool" where
  "outside r given_start given_end = (given_end < fst r \<or> snd r < given_start)"

definition do_optimize :: "(int \<times> int) list option \<Rightarrow> int \<Rightarrow> int \<Rightarrow> bool" where
  "do_optimize ranges given_start given_end =
     (case ranges of
        None \<Rightarrow> False
      | Some rs \<Rightarrow> list_all (\<lambda>r. outside r given_start given_end) rs)"

subsection \<open>Fetching one chunk\<close>

text \<open>
  \<^verbatim>\<open>_download_chunk(chunk_start, chunk_end)\<close>, both bounds inclusive.  The result is the
  pair \<open>(chunk_data, content_length)\<close> or the exception, next to the downloader, whose
  \<open>cd_requests\<close> has grown by the network call if one was made.  The refresh of the
  \<^verbatim>\<open>if_match\<close> condition changes only what the service is asked to check and is part
  of \<open>download\<close>; the progress counter and the progress hook are left out.
\<close>

definition download_chunk ::
  "env \<Rightarrow> chunk_downloader \<Rightarrow> int \<Rightarrow> int \<Rightarrow> (error + byte list \<times> int) \<times> chunk_downloader" where
  "download_chunk e cd chunk_start chunk_end =
     (let (download_range, offset) =
            process_range_and_offset e chunk_start chunk_end (Some chunk_end) (cd_encryption_data cd)
      in if do_optimize (cd_non_empty_ranges cd) (fst download_range) (snd download_range) then
           (let content_length = snd download_range - fst download_range + 1
            in (Inr (replicate (nat content_length) 0, content_length), cd))
         else
           (let cd1 = cd\<lparr>cd_requests := cd_requests cd @ [Download (Some download_range)]\<rparr>
            in case download e (Some download_range) of
                 Inl err \<Rightarrow> (Inl err, cd1)
               | Inr resp \<Rightarrow>
                   (case process_content e resp (fst offset) (snd offset) of
                      Inl err \<Rightarrow> (Inl err, cd1)
                    | Inr chunk_data \<Rightarrow> (Inr (chunk_data, content_length resp), cd1))))"

definition yield_chunk ::
  "env \<Rightarrow> chunk_downloader \<Rightarrow> int \<Rightarrow> (error + byte list \<times> int) \<times> chunk_downloader" where
  "yield_chunk e cd chunk_start0 =
     (let (chunk_start, chunk_end) = calculate_range cd chunk_start0
      in download_chunk e cd chunk_start (chunk_end - 1))"

text \<open>
  \<^verbatim>\<open>_write_to_stream\<close>: under the stream lock (a parallel download) the stream is
  positioned at \<open>stream_start + (chunk_start - start_index)\<close> first; otherwise the data
  are written at the current position.
\<close>

definition write_to_stream :: "chunk_downloader \<Rightarrow> byte list \<Rightarrow> int \<Rightarrow> error + chunk_downloader" where
  "write_to_stream cd chunk_data chunk_start =
     (case stream cd of
        BinaryStream st \<Rightarrow>
          (let st1 = (if parallel cd
                      then seek st (int (stream_start cd) + (chunk_start - start_index cd))
                      else st)
           in Inr (cd\<lparr>stream := BinaryStream (write_bytes st1 chunk_data)\<rparr>))
      | StringIO t \<Rightarrow> Inl TypeError)"

definition process_chunk :: "env \<Rightarrow> chunk_downloader \<Rightarrow> int \<Rightarrow> error option \<times> chunk_downloader" where
  "process_chunk e cd chunk_start0 =
     (let (chunk_start, chunk_end) = calculate_range cd chunk_start0
      in case download_chunk e cd chunk_start (chunk_end - 1) of
           (Inl err, cd1) \<Rightarrow> (Some err, cd1)
         | (Inr (chunk_data, _), cd1) \<Rightarrow>
             (let chunk_length = chunk_end - chunk_start
              in if chunk_length > 0 then
                   (case write_to_stream cd1 chunk_data chunk_start of
                      Inl err \<Rightarrow> (Some err, cd1)
                    | Inr cd2 \<Rightarrow> (None, cd2))
                 else (None, cd1)))"

subsection \<open>The concurrent scheduling loop\<close>

text \<open>
  The loop of \<^verbatim>\<open>read\<close> (lines 571-598) and \<^verbatim>\<open>readinto\<close> (lines 713-740) over the
  futures of \<^verbatim>\<open>process_chunk\<close>.  A task is the chunk offset it was created for.
  \<^verbatim>\<open>asyncio.wait(running_futures, return_when=FIRST_COMPLETED)\<close> returns a non-empty
  set \<open>done\<close> of the running tasks and the set of the others; which tasks these are is
  decided by the event loop and the network, here by \<open>wait\<close> of the environment.  A task
  has its effect (the request and the write to the stream) when it is reported done;
  \<^verbatim>\<open>task.result()\<close> raises the exception of the first failed one.
\<close>

definition asyncio_wait :: "env \<Rightarrow> int list \<Rightarrow> int list \<times> int list" where
  "asyncio_wait e running =
     (let chosen = filter (\<lambda>d. d \<in> set running) (remdups (wait e running));
          done = (if chosen = [] then take 1 running else chosen)
      in (done, filter (\<lambda>d. d \<notin> set done) running))"

definition start_tasks :: "int list \<Rightarrow> chunk_downloader \<Rightarrow> chunk_downloader" where
  "start_tasks ds cd = cd\<lparr>cd_events := cd_events cd @ map Started ds\<rparr>"

fun process_done :: "env \<Rightarrow> int list \<Rightarrow> chunk_downloader \<Rightarrow> error option \<times> chunk_downloader" where
  "process_done e [] cd = (None, cd)"
| "process_done e (d # ds) cd =
     (case process_chunk e cd d of
        (res, cd1) \<Rightarrow>
          (let cd2 = cd1\<lparr>cd_events := cd_events cd1 @ [Finished d]\<rparr>
           in case res of
                Some err \<Rightarrow> (Some err, cd2)
              | None \<Rightarrow> process_done e ds cd2))"

lemma asyncio_wait_shorter:
  "running \<noteq> [] \<Longrightarrow> asyncio_wait e running = (done, rest) \<Longrightarrow> length rest < length running"
proof -
  assume ne: "running \<noteq> []" and w: "asyncio_wait e running = (done, rest)"
  have d: "done \<noteq> [] \<and> set done \<subseteq> set running" and r: "rest = filter (\<lambda>d. d \<notin> set done) running"
    using ne w by (auto simp: asyncio_wait_def Let_def split: if_splits dest: in_set_takeD)
  then obtain x where x: "x \<in> set done" "x \<in> set running"
    by (cases "done") auto
  have "length (filter (\<lambda>d. d \<notin> set done) running) < length running"
    using x by (intro length_filter_less[of x]) auto
  then show ?thesis using r by simp
qed

text \<open>The last \<^verbatim>\<open>asyncio.wait(running_futures)\<close>: all remaining tasks complete.\<close>

function wait_remaining :: "env \<Rightarrow> int list \<Rightarrow> chunk_downloader \<Rightarrow> error option \<times> chunk_downloader" where
  "wait_remaining e running cd =
     (if running = [] then (None, cd)
      else (case asyncio_wait e running of
              (done, rest) \<Rightarrow>
                (case process_done e done cd of
                   (Some err, cd1) \<Rightarrow> (Some err, cd1)
                 | (None, cd1) \<Rightarrow> wait_remaining e rest cd1)))"
  by pat_completeness auto
termination
  by (relation "measure (\<lambda>(e, running, cd). length running)")
     (auto dest: asyncio_wait_shorter[OF _ sym])

text \<open>
  The \<^verbatim>\<open>while running_futures\<close> loop; \<open>pending\<close> is what the iterator of chunk offsets
  still holds.  For every task done the next offset is taken; when the iterator is
  exhausted (\<^verbatim>\<open>StopIteration\<close>) the loop is left and the remaining tasks are awaited.
\<close>

function run_chunks ::
  "env \<Rightarrow> int list \<Rightarrow> int list \<Rightarrow> chunk_downloader \<Rightarrow> error option \<times> chunk_downloader" where
  "run_chunks e running pending cd =
     (if running = [] then (None, cd)
      else (case asyncio_wait e running of
              (done, rest) \<Rightarrow>
                (case process_done e done cd of
                   (Some err, cd1) \<Rightarrow> (Some err, cd1)
                 | (None, cd1) \<Rightarrow>
                     if length pending < length done
                     then wait_remaining e (rest @ pending) (start_tasks pending cd1)
                     else run_chunks e (rest @ take (length done) pending)
                            (drop (length done) pending)
                            (start_tasks (take (length done) pending) cd1))))"
  by pat_completeness auto
termination
  by (relation "measure (\<lambda>(e, running, pending, cd). length running + length pending)")
     (auto dest: asyncio_wait_shorter[OF _ sym])

declare get_chunk_offsets.simps [simp del]
declare wait_remaining.simps [simp del]
declare run_chunks.simps [simp del]

text \<open>
  The whole of the scheduling: the first \<open>max_concurrency\<close> offsets are started
  (\<^verbatim>\<open>islice(chunks_iter, 0, max_concurrency)\<close>, which raises for a negative bound),
  then the loop runs.
\<close>

definition schedule_chunks ::
  "env \<Rightarrow> int \<Rightarrow> int list \<Rightarrow> chunk_downloader \<Rightarrow> error option \<times> chunk_downloader" where
  "schedule_chunks e max_conc offsets cd =
     (if max_conc < 0 then (Some (ValueError IsliceStop), cd)
      else run_chunks e (take (nat max_conc) offsets) (drop (nat max_conc) offsets)
             (start_tasks (take (nat max_conc) offsets) cd))"

subsection \<open>What the record of events says\<close>

text \<open>
  The offsets of the tasks started and of the tasks done, in the order of the events;
  the number of tasks in flight after a sequence of events; and whether at every
  moment of the sequence at most \<open>bound\<close> tasks were in flight.
\<close>

fun started :: "event list \<Rightarrow> int list" where
  "started [] = []"
| "started (Started d # ev) = d # started ev"
| "started (Finished d # ev) = started ev"

fun finished :: "event list \<Rightarrow> int list" where
  "finished [] = []"
| "finished (Started d # ev) = finished ev"
| "finished (Finished d # ev) = d # finished ev"

definition in_flight :: "event list \<Rightarrow> int" where
  "in_flight ev = int (length (started ev)) - int (length (finished ev))"

definition bounded :: "int \<Rightarrow> event list \<Rightarrow> bool" where
  "bounded bound ev = list_all (\<lambda>n. in_flight (take n ev) \<le> bound) [0..<Suc (length ev)]"

section \<open>The stream facade\<close>

text \<open>
  \<^verbatim>\<open>StorageStreamDownloader\<close>.  The fields keep their names without the leading
  underscore; \<open>total_size\<close> is \<^verbatim>\<open>self.size\<close> (\<^verbatim>\<open>None\<close> until \<^verbatim>\<open>_setup\<close> assigns it;
  no operation below runs before \<^verbatim>\<open>_setup\<close>), \<open>encoding\<close> says whether an encoding
  was configured, \<open>max_single_get_size\<close> and \<open>max_chunk_get_size\<close> are the two
  values of \<^verbatim>\<open>self._config\<close>, \<open>decoder\<close> is the buffer of the incremental decoder
  once there is one, and \<open>requests\<close> records the network calls of the session.
\<close>

record downloader =
  start_range :: "int option"
  end_range :: "int option"
  max_concurrency :: int
  encoding :: bool
  validate_content :: bool
  max_single_get_size :: int
  max_chunk_get_size :: int
  total_size :: int
  file_size :: int
  current_content :: data
  non_empty_ranges :: "(int \<times> int) list option"
  encryption_data :: "encryption_data option"
  download_offset :: int
  raw_download_offset :: int
  read_offset :: int
  current_content_offset :: int
  text_mode :: "bool option"
  decoder :: "byte list option"
  first_chunk :: bool
  download_start :: int
  initial_range :: "int \<times> int"
  initial_offset :: "int \<times> int"
  requests :: "request list"

text \<open>\<^verbatim>\<open>__init__\<close>.\<close>

definition init ::
  "int option \<Rightarrow> int option \<Rightarrow> bool \<Rightarrow> int \<Rightarrow> bool \<Rightarrow> int \<Rightarrow> int \<Rightarrow> downloader" where
  "init start_rng end_rng validate max_conc enc single_get chunk_get =
     \<lparr>start_range = start_rng, end_range = end_rng, max_concurrency = max_conc,
      encoding = enc, validate_content = validate,
      max_single_get_size = single_get, max_chunk_get_size = chunk_get,
      total_size = 0, file_size = 0, current_content = Bytes [],
      non_empty_ranges = None, encryption_data = None,
      download_offset = 0, raw_download_offset = 0, read_offset = 0,
      current_content_offset = 0, text_mode = None, decoder = None,
      first_chunk = True,
      download_start = (case start_rng of None \<Rightarrow> 0 | Some a \<Rightarrow> a),
      initial_range = (0, 0), initial_offset = (0, 0), requests = []\<rparr>"

text \<open>The property \<^verbatim>\<open>_download_complete\<close>.\<close>

definition download_complete :: "downloader \<Rightarrow> bool" where
  "download_complete s =
     (if is_encryption_v2 (encryption_data s)
      then download_offset s \<ge> total_size s
      else raw_download_offset s \<ge> total_size s)"

text \<open>
  \<^verbatim>\<open>_initial_request\<close>.  The result is the exception raised, if any, next to the
  object as the call leaves it.  \<open>finish_initial_request\<close> is the part after the
  \<^verbatim>\<open>try\<close> statement, run with the response of whichever request succeeded.
\<close>

definition finish_initial_request :: "env \<Rightarrow> downloader \<Rightarrow> response \<Rightarrow> error option \<times> downloader" where
  "finish_initial_request e s resp =
     (case (if total_size s = 0 then Inr []
            else process_content e resp (fst (initial_offset s)) (snd (initial_offset s))) of
        Inl err \<Rightarrow> (Some err, s)
      | Inr content \<Rightarrow>
          (let s1 = s\<lparr>current_content := Bytes content,
                      download_offset := download_offset s + int (length content),
                      raw_download_offset := raw_download_offset s + content_length resp\<rparr>
           in if page_blob resp then
                (let s2 = s1\<lparr>requests := requests s1 @ [GetPageRanges]\<rparr>
                 in case get_page_ranges e of
                      Inr ranges \<Rightarrow> (None, s2\<lparr>non_empty_ranges := Some ranges\<rparr>)
                    | Inl (HttpResponseError st r) \<Rightarrow> (None, s2)
                    | Inl err \<Rightarrow> (Some err, s2))
              else (None, s1)))"

definition initial_request :: "env \<Rightarrow> downloader \<Rightarrow> error option \<times> downloader" where
  "initial_request e s =
     (let s1 = s\<lparr>requests := requests s @ [Download (Some (initial_range s))]\<rparr>
      in case download e (Some (initial_range s)) of
           Inr resp \<Rightarrow>
             (case content_range resp of
                None \<Rightarrow> (Some (ValueError MissingContentRange), s1)
              | Some n \<Rightarrow>
                  (let fsize = adjust_blob_size_for_encryption e n (encryption_data s1);
                       s2 = s1\<lparr>file_size := fsize\<rparr>
                   in case end_range s2 of
                        Some end_rng \<Rightarrow>
                          (case start_range s2 of
                             None \<Rightarrow> (Some TypeError, s2)
                           | Some start_rng \<Rightarrow>
                               finish_initial_request e
                                 (s2\<lparr>total_size := min (fsize - start_rng) (end_rng - start_rng + 1)\<rparr>)
                                 resp)
                      | None \<Rightarrow>
                          (case start_range s2 of
                             Some start_rng \<Rightarrow>
                               finish_initial_request e (s2\<lparr>total_size := fsize - start_rng\<rparr>) resp
                           | None \<Rightarrow> finish_initial_request e (s2\<lparr>total_size := fsize\<rparr>) resp)))
         | Inl (HttpResponseError st has_resp) \<Rightarrow>
             if start_range s1 = None \<and> has_resp \<and> st = 416 then
               (let s2 = s1\<lparr>requests := requests s1 @ [Download None]\<rparr>
                in case download e None of
                     Inl err \<Rightarrow> (Some err, s2)
                   | Inr resp \<Rightarrow>
                       finish_initial_request e (s2\<lparr>total_size := 0, file_size := 0\<rparr>) resp)
             else (Some (HttpResponseError st has_resp), s1)
         | Inl err \<Rightarrow> (Some err, s1))"

text \<open>
  \<^verbatim>\<open>_setup\<close> (here \<open>do_setup\<close>), with \<^verbatim>\<open>_get_encryption_data_request\<close>.  The properties object that
  \<^verbatim>\<open>_setup\<close> fills in afterwards plays no part in the download and is left out.
\<close>

definition get_encryption_data_request :: "env \<Rightarrow> downloader \<Rightarrow> error option \<times> downloader" where
  "get_encryption_data_request e s =
     (let s1 = s\<lparr>requests := requests s @ [GetProperties]\<rparr>
      in case get_properties e of
           Inl err \<Rightarrow> (Some err, s1)
         | Inr d \<Rightarrow> (None, s1\<lparr>encryption_data := d\<rparr>))"

definition setup_ranges :: "env \<Rightarrow> downloader \<Rightarrow> downloader" where
  "setup_ranges e s =
     (let first_get_size =
            (if \<not> validate_content s then max_single_get_size s else max_chunk_get_size s);
          initial_request_start = (case start_range s of Some a \<Rightarrow> a | None \<Rightarrow> 0);
          initial_request_end =
            (case end_range s of
               Some b \<Rightarrow> if b - initial_request_start < first_get_size then b
                         else initial_request_start + first_get_size - 1
             | None \<Rightarrow> initial_request_start + first_get_size - 1);
          (rng, off) = process_range_and_offset e initial_request_start initial_request_end
                         (end_range s) (encryption_data s)
      in s\<lparr>initial_range := rng, initial_offset := off\<rparr>)"

definition do_setup :: "env \<Rightarrow> downloader \<Rightarrow> error option \<times> downloader" where
  "do_setup e s =
     (case (if encryption_key e then get_encryption_data_request e s else (None, s)) of
        (Some err, s1) \<Rightarrow> (Some err, s1)
      | (None, s1) \<Rightarrow> initial_request e (setup_ranges e s1))"

subsection \<open>Reading\<close>

text \<open>
  \<^verbatim>\<open>self._decoder.decode(input, final)\<close> of an incremental decoder that buffers the
  bytes of an incomplete sequence: the decoded text and the new buffer.
\<close>

definition decode :: "env \<Rightarrow> byte list \<Rightarrow> byte list \<Rightarrow> bool \<Rightarrow> error + nat list \<times> byte list" where
  "decode e buffer input final =
     (let input_data = buffer @ input
      in case buffer_decode e input_data final of
           None \<Rightarrow> Inl UnicodeDecodeError
         | Some (result, consumed) \<Rightarrow> Inr (result, drop consumed input_data))"

text \<open>\<^verbatim>\<open>_complete_read\<close>.\<close>

definition complete_read :: "downloader \<Rightarrow> downloader" where
  "complete_read s =
     s\<lparr>download_offset := total_size s,
       raw_download_offset := total_size s,
       read_offset := total_size s,
       current_content_offset := len (current_content s)\<rparr>"

text \<open>The empty result of \<^verbatim>\<open>read\<close>: \<^verbatim>\<open>b'' if not self._encoding else ''\<close>.\<close>

definition empty_result :: "downloader \<Rightarrow> data" where
  "empty_result s = (if \<not> encoding s then Bytes [] else Text [])"

text \<open>
  Lines 513-518 of \<^verbatim>\<open>read\<close>: the first read fixes the mode; entering the text mode
  creates the decoder and decodes the buffered content.
\<close>

definition enter_mode :: "env \<Rightarrow> downloader \<Rightarrow> int option \<Rightarrow> error option \<times> downloader" where
  "enter_mode e s chars =
     (if text_mode s \<noteq> Some True \<and> chars \<noteq> None then
        (let s1 = s\<lparr>text_mode := Some True, decoder := Some []\<rparr>
         in case current_content s1 of
              Text t \<Rightarrow> (Some TypeError, s1)
            | Bytes b \<Rightarrow>
                (case decode e [] b (download_complete s1) of
                   Inl err \<Rightarrow> (Some err, s1)
                 | Inr (t, buffer) \<Rightarrow>
                     (None, s1\<lparr>current_content := Text t, decoder := Some buffer\<rparr>)))
      else if text_mode s = None then (None, s\<lparr>text_mode := Some False\<rparr>)
      else (None, s))"

text \<open>
  The loop of lines 603-618: one chunk at a time until the requested amount is
  reached.  \<open>chunks_iter\<close> is what the iterator of chunk offsets still holds.
\<close>

fun read_chunks ::
  "env \<Rightarrow> chunk_downloader \<Rightarrow> int list \<Rightarrow> downloader \<Rightarrow> ostream \<Rightarrow> int
     \<Rightarrow> error option \<times> downloader \<times> ostream" where
  "read_chunks e cd [] s out remaining = (None, s, out)"
| "read_chunks e cd (chunk # chunks_iter) s out remaining =
     (if remaining > 0 then
        (case yield_chunk e cd chunk of
           (Inl err, cd1) \<Rightarrow> (Some err, s\<lparr>requests := requests s @ cd_requests cd1\<rparr>, out)
         | (Inr (chunk_data, clen), cd1) \<Rightarrow>
             (let s1 = s\<lparr>download_offset := download_offset s + int (length chunk_data),
                         raw_download_offset := raw_download_offset s + clen,
                         requests := requests s @ cd_requests cd1\<rparr>
              in case (if text_mode s1 = Some True then
                         (case decode e (case decoder s1 of Some b \<Rightarrow> b | None \<Rightarrow> [])
                                 chunk_data (download_complete s1) of
                            Inl err \<Rightarrow> Inl err
                          | Inr (t, buffer) \<Rightarrow>
                              Inr (s1\<lparr>current_content := Text t, decoder := Some buffer\<rparr>))
                       else Inr (s1\<lparr>current_content := Bytes chunk_data\<rparr>)) of
                   Inl err \<Rightarrow> (Some err, s1, out)
                 | Inr s2 \<Rightarrow>
                     (case write_stream out
                             (if remaining < len (current_content s2)
                              then slice (current_content s2) 0 remaining
                              else current_content s2) of
                        Inl err \<Rightarrow> (Some err, s2, out)
                      | Inr (out1, n) \<Rightarrow>
                          read_chunks e (cd1\<lparr>cd_requests := []\<rparr>) chunks_iter
                            (s2\<lparr>current_content_offset := n, read_offset := read_offset s2 + n\<rparr>)
                            out1 (remaining - n))))
      else (None, s, out))"

text \<open>The position \<^verbatim>\<open>stream.tell()\<close> of a stream that is only written to.\<close>

fun tell :: "ostream \<Rightarrow> nat" where
  "tell (BinaryStream st) = position st"
| "tell (StringIO t) = length t"

text \<open>
  \<^verbatim>\<open>data.decode(self._encoding)\<close> at the end of a read in bytes mode when an encoding
  is configured.
\<close>

definition decode_result :: "env \<Rightarrow> downloader \<Rightarrow> data \<Rightarrow> error + data" where
  "decode_result e s d =
     (if text_mode s \<noteq> Some True \<and> encoding s then
        (case d of
           Bytes b \<Rightarrow>
             (case buffer_decode e b True of
                None \<Rightarrow> Inl UnicodeDecodeError
              | Some (t, consumed) \<Rightarrow> Inr (Text t))
         | Text t \<Rightarrow> Inl TypeError)
      else Inr d)"

text \<open>
  Lines 542-618 of \<^verbatim>\<open>read\<close>: a downloader for the rest of the window is created;
  a read of everything in bytes mode hands the plan to the scheduling loop and then
  completes the read, any other read pulls one chunk at a time.
\<close>

definition read_rest ::
  "env \<Rightarrow> downloader \<Rightarrow> ostream \<Rightarrow> int \<Rightarrow> bool \<Rightarrow> (error + data) \<times> downloader" where
  "read_rest e s1 out1 remaining readall =
     (let start = download_start s1 + download_offset s1;
          end_ix = download_start s1 + total_size s1;
          downloader = \<lparr>chunk_size = max_chunk_get_size s1,
                        start_index = start, end_index = end_ix,
                        cd_non_empty_ranges = non_empty_ranges s1,
                        cd_encryption_data = encryption_data s1,
                        parallel = (max_concurrency s1 > 1),
                        stream = out1, stream_start = tell out1,
                        cd_requests = [], cd_events = []\<rparr>;
          s2 = s1\<lparr>first_chunk := False\<rparr>;
          chunks_iter = get_chunk_offsets start end_ix (chunk_size downloader)
      in if readall \<and> text_mode s2 \<noteq> Some True then
           (case schedule_chunks e (max_concurrency s2) chunks_iter downloader of
              (Some err, cd1) \<Rightarrow>
                (Inl err, s2\<lparr>requests := requests s2 @ cd_requests cd1\<rparr>)
            | (None, cd1) \<Rightarrow>
                (let s3 = complete_read (s2\<lparr>requests := requests s2 @ cd_requests cd1\<rparr>)
                 in (decode_result e s3 (getvalue (stream cd1)), s3)))
         else
           (case read_chunks e downloader chunks_iter s2 out1 remaining of
              (Some err, s3, out2) \<Rightarrow> (Inl err, s3)
            | (None, s3, out2) \<Rightarrow> (decode_result e s3 (getvalue out2), s3)))"

text \<open>
  Lines 520-632 of \<^verbatim>\<open>read\<close>, after the mode is fixed: serve the buffered content,
  then download what is still wanted.
\<close>

definition read_data :: "env \<Rightarrow> downloader \<Rightarrow> int \<Rightarrow> int option \<Rightarrow> (error + data) \<times> downloader" where
  "read_data e s size0 chars =
     (let output_stream = (if text_mode s = Some True then StringIO [] else BinaryStream BytesIO);
          size1 = (if text_mode s = Some True
                   then (case chars of Some c \<Rightarrow> if c \<noteq> 0 then c else sys_maxsize
                                      | None \<Rightarrow> sys_maxsize)
                   else if size0 > 0 then size0 else sys_maxsize);
          readall = (size1 = sys_maxsize);
          start = current_content_offset s;
          length0 = min (len (current_content s) - current_content_offset s) size1
      in case write_stream output_stream (slice (current_content s) start (start + length0)) of
           Inl err \<Rightarrow> (Inl err, s)
         | Inr (out1, cnt) \<Rightarrow>
             (let s1 = s\<lparr>current_content_offset := current_content_offset s + cnt,
                         read_offset := read_offset s + cnt\<rparr>;
                  remaining = size1 - cnt
              in if remaining > 0 \<and> \<not> download_complete s1
                 then read_rest e s1 out1 remaining readall
                 else (decode_result e s1 (getvalue out1), s1)))"

text \<open>\<^verbatim>\<open>read(size=-1, *, chars=None)\<close>.\<close>

definition read :: "env \<Rightarrow> downloader \<Rightarrow> int \<Rightarrow> int option \<Rightarrow> (error + data) \<times> downloader" where
  "read e s size0 chars =
     (if size0 > -1 \<and> chars \<noteq> None then (Inl (ValueError BothSizeAndChars), s)
      else if \<not> encoding s \<and> chars \<noteq> None then (Inl (ValueError EncodingRequired), s)
      else if text_mode s = Some True \<and> size0 > -1 then (Inl (ValueError TextModeUseChars), s)
      else if text_mode s = Some False \<and> chars \<noteq> None then (Inl (ValueError BytesModeUseSize), s)
      else if size0 = 0 \<or> chars = Some 0
              \<or> (download_complete s \<and> current_content_offset s \<ge> len (current_content s))
           then (Inr (empty_result s), s)
      else (case enter_mode e s chars of
              (Some err, s1) \<Rightarrow> (Inl err, s1)
            | (None, s1) \<Rightarrow> read_data e s1 size0 chars))"

text \<open>\<^verbatim>\<open>readall()\<close>.\<close>

definition readall :: "env \<Rightarrow> downloader \<Rightarrow> (error + data) \<times> downloader" where
  "readall e s = read e s (-1) None"

text \<open>
  \<^verbatim>\<open>readinto(stream)\<close>: the result or the exception, the object and the caller's
  stream as the call leaves them.  \<open>readinto_rest\<close> is the part from line 691 on, the
  download of what is not buffered.
\<close>

definition readinto_rest ::
  "env \<Rightarrow> downloader \<Rightarrow> ostream \<Rightarrow> bstream \<Rightarrow> int \<Rightarrow> (error + int) \<times> downloader \<times> bstream" where
  "readinto_rest e s1 out1 st1 remaining_size =
     (let data_start = download_start s1 + read_offset s1;
          data_end = download_start s1 + total_size s1;
          downloader = \<lparr>chunk_size = max_chunk_get_size s1,
                        start_index = data_start, end_index = data_end,
                        cd_non_empty_ranges = non_empty_ranges s1,
                        cd_encryption_data = encryption_data s1,
                        parallel = (max_concurrency s1 > 1),
                        stream = out1, stream_start = tell out1,
                        cd_requests = [], cd_events = []\<rparr>;
          dl_tasks = get_chunk_offsets data_start data_end (chunk_size downloader)
      in case schedule_chunks e (max_concurrency s1) dl_tasks downloader of
           (err, cd1) \<Rightarrow>
             (let s2 = s1\<lparr>requests := requests s1 @ cd_requests cd1\<rparr>;
                  st2 = (case stream cd1 of BinaryStream b \<Rightarrow> b | StringIO t \<Rightarrow> st1)
              in case err of
                   Some x \<Rightarrow> (Inl x, s2, st2)
                 | None \<Rightarrow> (Inr remaining_size, complete_read s2, st2)))"

definition readinto :: "env \<Rightarrow> downloader \<Rightarrow> bstream \<Rightarrow> (error + int) \<times> downloader \<times> bstream" where
  "readinto e s st =
     (if text_mode s = Some True then (Inl (ValueError TextModeReadinto), s, st)
      else if max_concurrency s > 1 \<and> (\<not> seekable st \<or> seek_raises st)
           then (Inl (ValueError NotSeekable), s, st)
      else
        (let remaining_size = total_size s - read_offset s
         in if remaining_size \<le> 0 then (Inr 0, s, st)
            else
              (let current_remaining = len (current_content s) - current_content_offset s;
                   start = current_content_offset s
               in case write_stream (BinaryStream st)
                         (slice (current_content s) start (start + current_remaining)) of
                    Inl err \<Rightarrow> (Inl err, s, st)
                  | Inr (out1, cnt) \<Rightarrow>
                      (let s1 = s\<lparr>current_content_offset := current_content_offset s + cnt,
                                  read_offset := read_offset s + cnt\<rparr>;
                           st1 = (case out1 of BinaryStream b \<Rightarrow> b | StringIO t \<Rightarrow> st)
                       in if download_complete s1 then (Inr remaining_size, s1, st1)
                          else readinto_rest e s1 out1 st1 remaining_size))))"

subsection \<open>Iterating over chunks\<close>

text \<open>\<^verbatim>\<open>_AsyncChunkIterator\<close>; \<open>iter_chunks\<close> is \<open>None\<close> until the offsets are asked for.\<close>

record chunk_iterator =
  it_size :: int
  it_chunk_size :: int
  it_current_content :: data
  iter_downloader :: "chunk_downloader option"
  iter_chunks :: "int list option"
  complete :: bool

text \<open>\<^verbatim>\<open>chunks()\<close>.\<close>

definition chunks :: "downloader \<Rightarrow> error + chunk_iterator" where
  "chunks s =
     (if text_mode s = Some True then Inl (ValueError TextModeChunks)
      else
        (let iter_dl =
               (if \<not> first_chunk s \<or> \<not> download_complete s then
                  (let start = (if first_chunk s then download_start s + len (current_content s)
                                else download_start s);
                       end_ix = download_start s + total_size s
                   in Some \<lparr>chunk_size = max_chunk_get_size s,
                            start_index = start, end_index = end_ix,
                            cd_non_empty_ranges = non_empty_ranges s,
                            cd_encryption_data = encryption_data s,
                            parallel = False,
                            stream = BinaryStream BytesIO, stream_start = 0,
                            cd_requests = [], cd_events = []\<rparr>)
                else None);
             initial_content = (if first_chunk s then current_content s else Bytes [])
         in Inr \<lparr>it_size = total_size s, it_chunk_size = max_chunk_get_size s,
                 it_current_content = initial_content, iter_downloader = iter_dl,
                 iter_chunks = None, complete = (total_size s = 0)\<rparr>))"

text \<open>\<^verbatim>\<open>_get_chunk_data\<close>: the chunk cut off the front of the content.\<close>

definition get_chunk_data :: "chunk_iterator \<Rightarrow> data \<times> chunk_iterator" where
  "get_chunk_data it =
     (let c = it_current_content it
      in (slice c 0 (it_chunk_size it),
          it\<lparr>it_current_content := slice c (it_chunk_size it) (len c)\<rparr>))"

text \<open>The outcome of \<^verbatim>\<open>__anext__\<close>: a chunk, the end of the iteration, or an exception.\<close>

datatype outcome = Yield data | StopAsyncIteration | Raise error

fun append_bytes :: "data \<Rightarrow> byte list \<Rightarrow> error + data" where
  "append_bytes (Bytes b) d = Inr (Bytes (b @ d))"
| "append_bytes (Text t) d = Inl TypeError"

definition anext :: "env \<Rightarrow> chunk_iterator \<Rightarrow> outcome \<times> chunk_iterator" where
  "anext e it =
     (if complete it then (StopAsyncIteration, it)
      else
        (case iter_downloader it of
           None \<Rightarrow>
             if len (it_current_content it) > it_chunk_size it
             then (case get_chunk_data it of (d, it1) \<Rightarrow> (Yield d, it1))
             else (Yield (it_current_content it), it\<lparr>complete := True\<rparr>)
         | Some cd \<Rightarrow>
             (let offsets = (case iter_chunks it of
                               None \<Rightarrow> get_chunk_offsets (start_index cd) (end_index cd) (chunk_size cd)
                             | Some cs \<Rightarrow> cs);
                  it1 = it\<lparr>iter_chunks := Some offsets\<rparr>
              in if len (it_current_content it1) \<ge> it_chunk_size it1
                 then (case get_chunk_data it1 of (d, it2) \<Rightarrow> (Yield d, it2))
                 else
                   (case offsets of
                      [] \<Rightarrow>
                        if len (it_current_content it1) \<noteq> 0
                        then (Yield (it_current_content it1), it1\<lparr>complete := True\<rparr>)
                        else (StopAsyncIteration, it1\<lparr>complete := True\<rparr>)
                    | chunk # rest \<Rightarrow>
                        (case yield_chunk e cd chunk of
                           (Inl err, cd1) \<Rightarrow>
                             (Raise err, it1\<lparr>iter_chunks := Some rest, iter_downloader := Some cd1\<rparr>)
                         | (Inr (d, n), cd1) \<Rightarrow>
                             (case append_bytes (it_current_content it1) d of
                                Inl err \<Rightarrow>
                                  (Raise err,
                                   it1\<lparr>iter_chunks := Some rest, iter_downloader := Some cd1\<rparr>)
                              | Inr c \<Rightarrow>
                                  (case get_chunk_data
                                          (it1\<lparr>iter_chunks := Some rest, iter_downloader := Some cd1,
                                               it_current_content := c\<rparr>) of
                                     (d1, it2) \<Rightarrow> (Yield d1, it2))))))))"

text \<open>
  \<^verbatim>\<open>async for chunk in stream.chunks()\<close>: the chunks yielded until the iteration
  ends, or the exception that ends it; \<open>None\<close> when the iteration has not ended after
  \<open>fuel\<close> calls of \<^verbatim>\<open>__anext__\<close>.
\<close>

fun iterate :: "nat \<Rightarrow> env \<Rightarrow> chunk_iterator \<Rightarrow> ((error + data list) \<times> chunk_iterator) option" where
  "iterate 0 e it = None"
| "iterate (Suc fuel) e it =
     (case anext e it of
        (StopAsyncIteration, it1) \<Rightarrow> Some (Inr [], it1)
      | (Raise err, it1) \<Rightarrow> Some (Inl err, it1)
      | (Yield d, it1) \<Rightarrow>
          (case iterate fuel e it1 of
             None \<Rightarrow> None
           | Some (Inl err, it2) \<Rightarrow> Some (Inl err, it2)
           | Some (Inr ds, it2) \<Rightarrow> Some (Inr (d # ds), it2)))"

section \<open>A range server without encryption\<close>

text \<open>
  The service the data claims are proved against: a blob of fixed content served by
  range, as the range-fetch client of the spec: a request for the inclusive range
  \<open>(a, b)\<close> answers with the bytes \<open>a\<close> to \<open>b\<close> of the blob (fewer at its end), with
  their number as content length and the blob's length in the content range, and with
  status 416 when \<open>a\<close> is not a position of the blob.  No encryption is configured:
  \<^verbatim>\<open>process_range_and_offset\<close> is the identity mapping with offsets \<open>(0, 0)\<close>.
\<close>

definition plain_download :: "byte list \<Rightarrow> bool \<Rightarrow> (int \<times> int) option \<Rightarrow> error + response" where
  "plain_download blob pb rng =
     (case rng of
        None \<Rightarrow> Inr \<lparr>body = blob, content_length = int (length blob),
                      content_range = None, page_blob = pb\<rparr>
      | Some (a, b) \<Rightarrow>
          if 0 \<le> a \<and> a < int (length blob) \<and> a \<le> b then
            (let d = py_slice blob a (b + 1)
             in Inr \<lparr>body = d, content_length = int (length d),
                     content_range = Some (int (length blob)), page_blob = pb\<rparr>)
          else Inl (HttpResponseError 416 True))"

definition plain_env ::
  "byte list \<Rightarrow> bool \<Rightarrow> error + (int \<times> int) list
     \<Rightarrow> (byte list \<Rightarrow> bool \<Rightarrow> (nat list \<times> nat) option) \<Rightarrow> (int list \<Rightarrow> int list) \<Rightarrow> env" where
  "plain_env blob pb ranges dec w =
     \<lparr>download = plain_download blob pb,
      get_page_ranges = ranges,
      get_properties = Inr None,
      encryption_key = False,
      process_range_and_offset = (\<lambda>a b l d. ((a, b), (0, 0))),
      decrypt_blob = (\<lambda>c a b. None),
      adjust_blob_size_for_encryption = (\<lambda>n d. n),
      buffer_decode = dec,
      wait = w\<rparr>"

text \<open>An example codec: Latin-1, every byte one character.\<close>

definition latin1 :: "byte list \<Rightarrow> bool \<Rightarrow> (nat list \<times> nat) option" where
  "latin1 bs final = Some (map unat bs, length bs)"

section \<open>Example sessions\<close>

text \<open>
  A blob of ten bytes behind the range server, downloaded with a first request of four
  bytes and chunks of three; the event loop reports the running tasks in reverse order.
\<close>

definition demo_blob :: "byte list" where
  "demo_blob = [1, 2, 3, 4, 5, 6, 7, 8, 9, 10]"

definition demo_env :: env where
  "demo_env = plain_env demo_blob False (Inr []) latin1 rev"

definition demo_session :: "int \<Rightarrow> bool \<Rightarrow> downloader" where
  "demo_session max_conc enc = snd (do_setup demo_env (init None None False max_conc enc 4 3))"

definition demo_text_session :: downloader where
  "demo_text_session = snd (read demo_env (demo_session 1 True) (-1) (Some 3))"

definition demo_bytes_session :: downloader where
  "demo_bytes_session = snd (read demo_env (demo_session 1 True) 3 None)"

text \<open>A stream that cannot seek, and a downloader over a sparse page blob.\<close>

definition pipe_stream :: bstream where
  "pipe_stream = \<lparr>contents = [], position = 0, seekable = False, seek_raises = True\<rparr>"

definition sparse_cd :: chunk_downloader where
  "sparse_cd = \<lparr>chunk_size = 4, start_index = 0, end_index = 12,
      cd_non_empty_ranges = Some [(0, 3)], cd_encryption_data = None, parallel = False,
      stream = BinaryStream BytesIO, stream_start = 0, cd_requests = [], cd_events = []\<rparr>"






definition empty_env :: env where
  "empty_env = plain_env [] False (Inr []) latin1 id"

definition empty_start :: downloader where
  "empty_start = setup_ranges empty_env (init None None False 1 False 4 3)"

definition empty_session :: downloader where
  "empty_session = snd (do_setup empty_env (init None None False 1 False 4 3))"

definition demo_cd :: chunk_downloader where
  "demo_cd = \<lparr>chunk_size = 3, start_index = 0, end_index = 10,
      cd_non_empty_ranges = None, cd_encryption_data = None, parallel = True,
      stream = BinaryStream BytesIO, stream_start = 0, cd_requests = [], cd_events = []\<rparr>"

lemma demo_text_mode: "text_mode demo_text_session = Some True"
  by code_simp

lemma demo_bytes_mode: "text_mode demo_bytes_session = Some False"
  by code_simp

lemma demo_session_config:
  "encoding (demo_session 1 False) = False" "max_concurrency (demo_session 2 False) = 2"
  by code_simp+

lemma demo_encodings:
  "encoding (demo_session 1 True)" "encoding demo_text_session" "encoding demo_bytes_session"
  "text_mode (demo_session 1 True) = None"
  by code_simp+


lemma empty_start_facts:
  "download empty_env (Some (initial_range empty_start)) = Inl (HttpResponseError 416 True)"
  "start_range empty_start = None"
  "download empty_env None = Inr \<lparr>body = [], content_length = 0, content_range = None, page_blob = False\<rparr>"
  "download_offset empty_start = 0" "raw_download_offset empty_start = 0"
  "current_content_offset empty_start = 0" "requests empty_start = []"
  "initial_range empty_start = (0, 3)"
  "do_setup empty_env (init None None False 1 False 4 3) = initial_request empty_env empty_start"
  "encoding empty_session = False"
  by (code_simp)+

section \<open>Lemmas on the facade\<close>


lemma download_complete_upd [simp]:
  "download_complete (s\<lparr>current_content_offset := a\<rparr>) = download_complete s"
  "download_complete (s\<lparr>read_offset := b\<rparr>) = download_complete s"
  "download_complete (s\<lparr>text_mode := m\<rparr>) = download_complete s"
  "download_complete (s\<lparr>requests := q\<rparr>) = download_complete s"
  "download_complete (s\<lparr>first_chunk := f\<rparr>) = download_complete s"
  "download_complete (s\<lparr>current_content := c\<rparr>) = download_complete s"
  "download_complete (s\<lparr>decoder := d\<rparr>) = download_complete s"
  by (simp_all add: download_complete_def)

lemma decode_result_requests:
  "requests (snd (case decode_result e s d of x \<Rightarrow> (x, s))) = requests s"
  by simp




lemma finish_initial_request_empty:
  assumes "total_size s = 0"
    and "page_blob resp \<longrightarrow>
           (\<exists>rs. get_page_ranges e = Inr rs) \<or> (\<exists>c r. get_page_ranges e = Inl (HttpResponseError c r))"
  shows "\<exists>s'. finish_initial_request e s resp = (None, s')
           \<and> total_size s' = 0 \<and> current_content s' = Bytes []
           \<and> download_offset s' = download_offset s
           \<and> raw_download_offset s' = raw_download_offset s + content_length resp
           \<and> current_content_offset s' = current_content_offset s
           \<and> encryption_data s' = encryption_data s
           \<and> requests s' = requests s @ (if page_blob resp then [GetPageRanges] else [])"
  using assms unfolding finish_initial_request_def Let_def
  by (auto split: sum.splits error.splits)

section \<open>Lemmas on the scheduling loop\<close>

lemma started_append [simp]: "started (xs @ ys) = started xs @ started ys"
  by (induction xs rule: started.induct) auto

lemma finished_append [simp]: "finished (xs @ ys) = finished xs @ finished ys"
  by (induction xs rule: finished.induct) auto

lemma started_map [simp]: "started (map Started ds) = ds" "started (map Finished ds) = []"
  by (induction ds) auto

lemma finished_map [simp]: "finished (map Finished ds) = ds" "finished (map Started ds) = []"
  by (induction ds) auto

lemma bounded_iff: "bounded b ev \<longleftrightarrow> (\<forall>n. in_flight (take n ev) \<le> b)"
proof
  assume h: "bounded b ev"
  show "\<forall>n. in_flight (take n ev) \<le> b"
  proof
    fix n
    show "in_flight (take n ev) \<le> b"
    proof (cases "n \<le> length ev")
      case True
      then show ?thesis using h by (auto simp: bounded_def list_all_iff)
    next
      case False
      then have "take n ev = take (length ev) ev" by simp
      moreover have "in_flight (take (length ev) ev) \<le> b"
        using h by (auto simp: bounded_def list_all_iff)
      ultimately show ?thesis by simp
    qed
  qed
next
  assume "\<forall>n. in_flight (take n ev) \<le> b"
  then show "bounded b ev" by (simp add: bounded_def list_all_iff)
qed

lemma bounded_finished:
  assumes "bounded b ev"
  shows "bounded b (ev @ map Finished fs)"
  unfolding bounded_iff
proof
  fix n
  have a: "in_flight (take n ev) \<le> b" "in_flight ev \<le> b"
    using assms[unfolded bounded_iff] by (simp, metis order_refl take_all)
  show "in_flight (take n (ev @ map Finished fs)) \<le> b"
    using a by (simp add: in_flight_def take_map)
qed

lemma bounded_started:
  assumes "bounded b ev" "in_flight ev + int (length ks) \<le> b"
  shows "bounded b (ev @ map Started ks)"
  unfolding bounded_iff
proof
  fix n
  have a: "in_flight (take n ev) \<le> b"
    using assms[unfolded bounded_iff] by simp
  show "in_flight (take n (ev @ map Started ks)) \<le> b"
  proof (cases "n \<le> length ev")
    case True
    then show ?thesis using a by (simp add: in_flight_def take_map)
  next
    case False
    then show ?thesis using assms(2) by (simp add: in_flight_def take_map)
  qed
qed

lemma download_chunk_events:
  "cd_events (snd (download_chunk e cd a b)) = cd_events cd"
  by (simp add: download_chunk_def Let_def split: prod.splits sum.splits)

lemma process_chunk_events:
  "cd_events (snd (process_chunk e cd d)) = cd_events cd"
proof -
  obtain a b where ab: "calculate_range cd d = (a, b)" by force
  obtain r cd1 where r: "download_chunk e cd a (b - 1) = (r, cd1)" by force
  have "cd_events cd1 = cd_events cd"
    using download_chunk_events[of e cd a "b - 1"] r by simp
  then show ?thesis
    using ab r
    by (auto simp: process_chunk_def write_to_stream_def Let_def
             split: sum.splits prod.splits ostream.splits)
qed

lemma process_done_events:
  "process_done e ds cd = (res, cd') \<Longrightarrow>
     \<exists>k \<le> length ds. cd_events cd' = cd_events cd @ map Finished (take k ds)
        \<and> (res = None \<longrightarrow> k = length ds)"
proof (induction ds arbitrary: cd)
  case Nil
  then show ?case by simp
next
  case (Cons d ds)
  obtain r cd1 where pc: "process_chunk e cd d = (r, cd1)" by force
  have ev1: "cd_events cd1 = cd_events cd"
    using process_chunk_events[of e cd d] pc by simp
  define cd2 where "cd2 = cd1\<lparr>cd_events := cd_events cd1 @ [Finished d]\<rparr>"
  show ?case
  proof (cases r)
    case (Some err)
    then have "cd' = cd2" "res = Some err"
      using Cons.prems pc by (auto simp: cd2_def Let_def)
    then show ?thesis
      using ev1 by (intro exI[of _ 1]) (simp add: cd2_def)
  next
    case None
    then have "process_done e ds cd2 = (res, cd')"
      using Cons.prems pc by (simp add: cd2_def Let_def)
    from Cons.IH[OF this] obtain k where k: "k \<le> length ds"
      "cd_events cd' = cd_events cd2 @ map Finished (take k ds)"
      "res = None \<longrightarrow> k = length ds" by blast
    then show ?thesis
      using ev1 by (intro exI[of _ "Suc k"]) (simp add: cd2_def)
  qed
qed

definition sched_inv :: "int \<Rightarrow> int list \<Rightarrow> int list \<Rightarrow> int list \<Rightarrow> event list \<Rightarrow> bool" where
  "sched_inv bound offsets running pending ev \<longleftrightarrow>
     distinct offsets \<and> started ev @ pending = offsets
     \<and> mset (started ev) = mset (finished ev) + mset running
     \<and> bounded bound ev \<and> int (length running) \<le> bound"

definition sched_post :: "int \<Rightarrow> int list \<Rightarrow> error option \<Rightarrow> event list \<Rightarrow> bool" where
  "sched_post bound offsets res ev \<longleftrightarrow>
     bounded bound ev \<and> (\<exists>k. started ev = take k offsets)
     \<and> mset (finished ev) \<subseteq># mset (started ev)
     \<and> (res = None \<longrightarrow> started ev = offsets \<and> mset (finished ev) = mset offsets)"

lemma sched_inv_in_flight:
  "sched_inv b offsets running pending ev \<Longrightarrow> in_flight ev = int (length running)"
proof -
  assume "sched_inv b offsets running pending ev"
  then have "mset (started ev) = mset (finished ev) + mset running"
    by (simp add: sched_inv_def)
  then have "size (mset (started ev)) = size (mset (finished ev) + mset running)" by simp
  then show ?thesis by (simp add: in_flight_def)
qed

lemma sched_inv_distinct:
  assumes "sched_inv b offsets running pending ev"
  shows "distinct running" "distinct (started ev)" "set running \<subseteq> set (started ev)"
proof -
  have "distinct (started ev @ pending)"
    using assms by (simp add: sched_inv_def)
  then have d: "distinct (started ev)" by simp
  have m: "mset (finished ev @ running) = mset (started ev)"
    using assms by (simp add: sched_inv_def)
  have "distinct (finished ev @ running)"
    using d mset_eq_imp_distinct_iff[OF m] by simp
  then show "distinct running" by simp
  show "distinct (started ev)" by (rule d)
  have "set (finished ev @ running) = set (started ev)"
    using mset_eq_setD[OF m] .
  then show "set running \<subseteq> set (started ev)" by auto
qed

lemma asyncio_wait_done:
  assumes "running \<noteq> []" "distinct running" "asyncio_wait e running = (done, rest)"
  shows "done \<noteq> [] \<and> set done \<subseteq> set running \<and> distinct done
         \<and> rest = filter (\<lambda>d. d \<notin> set done) running"
proof -
  define chosen where "chosen = filter (\<lambda>d. d \<in> set running) (remdups (wait e running))"
  have c: "distinct chosen" "set chosen \<subseteq> set running"
    by (auto simp: chosen_def)
  have t: "distinct (take 1 running)" "set (take 1 running) \<subseteq> set running" "take 1 running \<noteq> []"
    using assms(1,2) by (auto dest: in_set_takeD)
  have dn: "done = (if chosen = [] then take 1 running else chosen)"
    and r: "rest = filter (\<lambda>d. d \<notin> set done) running"
    using assms(3) by (auto simp add: asyncio_wait_def Let_def chosen_def)
  show ?thesis
  proof (cases "chosen = []")
    case True
    then show ?thesis using dn r t by simp
  next
    case False
    then show ?thesis using dn r c by simp
  qed
qed

lemma asyncio_wait_split:
  assumes "running \<noteq> []" "distinct running" "asyncio_wait e running = (done, rest)"
  shows "done \<noteq> []" "mset running = mset done + mset rest" "length done \<le> length running"
proof -
  have d: "done \<noteq> []" "set done \<subseteq> set running" "distinct done"
    and r: "rest = filter (\<lambda>d. d \<notin> set done) running"
    using asyncio_wait_done[OF assms] by simp_all
  show "done \<noteq> []" by (rule d)
  have s: "set (filter (\<lambda>x. x \<in> set done) running) = set done"
    using d(2) by auto
  have df: "distinct (filter (\<lambda>x. x \<in> set done) running)"
    using assms(2) by simp
  have "mset (filter (\<lambda>x. x \<in> set done) running) = mset done"
    using set_eq_iff_mset_eq_distinct[OF df d(3)] s by blast
  then have f1: "filter_mset (\<lambda>x. x \<in> set done) (mset running) = mset done"
    by (simp only: mset_filter)
  have f2: "filter_mset (\<lambda>x. \<not> x \<in> set done) (mset running) = mset rest"
    unfolding r by (simp only: mset_filter)
  have p: "mset running = filter_mset (\<lambda>x. x \<in> set done) (mset running)
                   + filter_mset (\<lambda>x. \<not> x \<in> set done) (mset running)"
    by (rule multiset_partition)
  show m: "mset running = mset done + mset rest"
    using p unfolding f1 f2 .
  have "size (mset running) = size (mset done + mset rest)" using m by simp
  then show "length done \<le> length running" by simp
qed

lemma sched_step:
  assumes inv: "sched_inv b offsets running pending (cd_events cd)"
    and ne: "running \<noteq> []"
    and w: "asyncio_wait e running = (done, rest)"
    and pd: "process_done e done cd = (res, cd1)"
  shows "res \<noteq> None \<longrightarrow> sched_post b offsets res (cd_events cd1)"
    and "res = None \<longrightarrow> sched_inv b offsets rest pending (cd_events cd1)
           \<and> length rest + length done = length running"
proof -
  let ?ev = "cd_events cd"
  have dr: "distinct running" using sched_inv_distinct(1)[OF inv] .
  have sp: "mset running = mset done + mset rest" "done \<noteq> []"
    using asyncio_wait_split[OF ne dr w] by simp_all
  obtain k where k: "k \<le> length done"
      "cd_events cd1 = ?ev @ map Finished (take k done)" "res = None \<longrightarrow> k = length done"
    using process_done_events[OF pd] by blast
  have i: "distinct offsets" "started ?ev @ pending = offsets"
      "mset (started ?ev) = mset (finished ?ev) + mset running"
      "bounded b ?ev" "int (length running) \<le> b"
    using inv by (simp_all add: sched_inv_def)
  have bd: "bounded b (cd_events cd1)"
    unfolding k(2) by (rule bounded_finished[OF i(4)])
  have st: "started (cd_events cd1) = started ?ev"
    by (simp add: k(2))
  have fi: "finished (cd_events cd1) = finished ?ev @ take k done"
    by (simp add: k(2))
  have sub: "mset (take k done) \<subseteq># mset done"
    by (metis append_take_drop_id mset_append mset_subset_eq_add_left)
  show "res \<noteq> None \<longrightarrow> sched_post b offsets res (cd_events cd1)"
  proof
    assume "res \<noteq> None"
    have "mset (finished (cd_events cd1)) \<subseteq># mset (started (cd_events cd1))"
      unfolding st fi i(3) sp(1) using sub by (simp add: subset_mset.add_increasing2)
    moreover have "\<exists>j. started (cd_events cd1) = take j offsets"
      unfolding st using i(2) by (metis append_eq_conv_conj)
    ultimately show "sched_post b offsets res (cd_events cd1)"
      using bd \<open>res \<noteq> None\<close> by (auto simp add: sched_post_def)
  qed
  show "res = None \<longrightarrow> sched_inv b offsets rest pending (cd_events cd1)
           \<and> length rest + length done = length running"
  proof
    assume "res = None"
    then have kk: "take k done = done" using k by simp
    have sz: "size (mset running) = size (mset done + mset rest)" using sp(1) by simp
    then have l: "length rest + length done = length running" by simp
    have "mset (started (cd_events cd1)) = mset (finished (cd_events cd1)) + mset rest"
      unfolding st fi kk i(3) sp(1) by simp
    then have "sched_inv b offsets rest pending (cd_events cd1)"
      using i bd l st by (simp add: sched_inv_def)
    then show "sched_inv b offsets rest pending (cd_events cd1)
           \<and> length rest + length done = length running"
      using l by simp
  qed
qed

lemma sched_inv_done:
  assumes "sched_inv b offsets [] [] ev"
  shows "sched_post b offsets None ev"
proof -
  have a: "started ev = offsets" and m: "mset (started ev) = mset (finished ev)"
    and c: "bounded b ev"
    using assms by (auto simp add: sched_inv_def)
  have "started ev = take (length offsets) offsets" using a by simp
  then have "\<exists>k. started ev = take k offsets" by blast
  moreover have "mset (finished ev) = mset offsets" using a m by simp
  moreover have "mset (finished ev) \<subseteq># mset (started ev)" using m by simp
  ultimately show ?thesis
    using a c by (simp add: sched_post_def)
qed

lemma sched_inv_start:
  assumes inv: "sched_inv b offsets rest pending (cd_events cd)"
    and l: "int (length rest) + int (length new) \<le> b"
    and p: "pending = new @ pending'"
  shows "sched_inv b offsets (rest @ new) pending' (cd_events (start_tasks new cd))"
proof -
  have fl: "in_flight (cd_events cd) = int (length rest)"
    using sched_inv_in_flight[OF inv] .
  have "bounded b (cd_events cd @ map Started new)"
    using inv l fl by (intro bounded_started) (simp_all add: sched_inv_def)
  then show ?thesis
    using inv l p by (simp add: sched_inv_def start_tasks_def)
qed

lemma wait_remaining_post:
  "sched_inv b offsets running [] (cd_events cd) \<Longrightarrow> wait_remaining e running cd = (res, cd')
     \<Longrightarrow> sched_post b offsets res (cd_events cd')"
proof (induction "length running" arbitrary: running cd rule: less_induct)
  case less
  show ?case
  proof (cases "running = []")
    case True
    then have "res = None" "cd' = cd"
      using less.prems(2) by (simp_all add: wait_remaining.simps)
    then show ?thesis using sched_inv_done less.prems(1) True by simp
  next
    case False
    obtain dn rest where w: "asyncio_wait e running = (dn, rest)" by force
    obtain r1 cd1 where pd: "process_done e dn cd = (r1, cd1)" by force
    note st = sched_step[OF less.prems(1) False w pd]
    show ?thesis
    proof (cases r1)
      case None
      then have wr: "wait_remaining e rest cd1 = (res, cd')"
        using less.prems(2) False w pd by (simp add: wait_remaining.simps)
      have "length rest < length running"
        using asyncio_wait_shorter[OF False w] .
      then show ?thesis using less.hyps[OF _ _ wr] st(2) None by simp
    next
      case (Some err)
      then have "res = r1" "cd' = cd1"
        using less.prems(2) False w pd by (simp_all add: wait_remaining.simps)
      then show ?thesis using st(1) Some by simp
    qed
  qed
qed

lemma run_chunks_post:
  "sched_inv b offsets running pending (cd_events cd) \<Longrightarrow> run_chunks e running pending cd = (res, cd')
     \<Longrightarrow> (running = [] \<longrightarrow> pending = [])
     \<Longrightarrow> sched_post b offsets res (cd_events cd')"
proof (induction "length running + length pending" arbitrary: running pending cd rule: less_induct)
  case less
  show ?case
  proof (cases "running = []")
    case True
    then have rc: "res = None" "cd' = cd"
      using less.prems(2) by (simp_all add: run_chunks.simps)
    show ?thesis using sched_inv_done less.prems(1,3) True rc by simp
  next
    case False
    obtain dn rest where w: "asyncio_wait e running = (dn, rest)" by force
    obtain r1 cd1 where pd: "process_done e dn cd = (r1, cd1)" by force
    note st = sched_step[OF less.prems(1) False w pd]
    show ?thesis
    proof (cases r1)
      case (Some err)
      then have "res = r1" "cd' = cd1"
        using less.prems(2) False w pd by (simp_all add: run_chunks.simps)
      then show ?thesis using st(1) Some by simp
    next
      case None
      have inv1: "sched_inv b offsets rest pending (cd_events cd1)"
        and len: "length rest + length dn = length running"
        using st(2) None by simp_all
      have bnd: "int (length running) \<le> b"
        using less.prems(1) by (simp add: sched_inv_def)
      show ?thesis
      proof (cases "length pending < length dn")
        case True
        then have wr: "wait_remaining e (rest @ pending) (start_tasks pending cd1) = (res, cd')"
          using less.prems(2) False w pd None by (simp add: run_chunks.simps)
        have "sched_inv b offsets (rest @ pending) [] (cd_events (start_tasks pending cd1))"
          using True len bnd by (intro sched_inv_start[OF inv1]) simp_all
        then show ?thesis using wait_remaining_post wr by blast
      next
        case False
        let ?new = "take (length dn) pending"
        from False have rc: "run_chunks e (rest @ ?new) (drop (length dn) pending)
                     (start_tasks ?new cd1) = (res, cd')"
          using less.prems(2) \<open>running \<noteq> []\<close> w pd None by (simp add: run_chunks.simps)
        have i2: "sched_inv b offsets (rest @ ?new) (drop (length dn) pending)
                  (cd_events (start_tasks ?new cd1))"
          using False len bnd by (intro sched_inv_start[OF inv1]) simp_all
        have "dn \<noteq> []"
          using asyncio_wait_split(1)[OF \<open>running \<noteq> []\<close> sched_inv_distinct(1)[OF less.prems(1)] w] .
        then have "length (rest @ ?new) + length (drop (length dn) pending)
                < length running + length pending"
          using False len by (cases dn) simp_all
        moreover have "rest @ ?new = [] \<longrightarrow> drop (length dn) pending = []"
          using False \<open>dn \<noteq> []\<close> by (cases dn) auto
        ultimately show ?thesis using less.hyps[OF _ i2 rc] by simp
      qed
    qed
  qed
qed

section \<open>Sparse skip\<close>

text \<open>
  C5.  A chunk whose wire range (the range \<^verbatim>\<open>process_range_and_offset\<close> computes for
  it) lies outside every range of the known non-empty ranges is fetched without any
  network call, and its data are exactly \<open>content_length\<close> zero bytes, where
  \<open>content_length\<close> is the inclusive length of the wire range.
\<close>

theorem sparse_skip_no_request:
  assumes "cd_non_empty_ranges cd = Some rs"
    and "process_range_and_offset e chunk_start chunk_end (Some chunk_end) (cd_encryption_data cd)
           = ((a, b), off)"
    and "\<forall>r \<in> set rs. b < fst r \<or> snd r < a"
  shows "download_chunk e cd chunk_start chunk_end
           = (Inr (replicate (nat (b - a + 1)) 0, b - a + 1), cd)"
  using assms by (simp add: download_chunk_def do_optimize_def outside_def list_all_iff Let_def)

theorem sparse_skip_no_request_witness:
  "download_chunk (plain_env [] True (Inr [(0, 3)]) latin1 id) sparse_cd 4 7
     = (Inr ([0, 0, 0, 0], 4), sparse_cd)"
  using sparse_skip_no_request[of sparse_cd "[(0, 3)]"
          "plain_env [] True (Inr [(0, 3)]) latin1 id" 4 7 4 7 "(0, 0)"]
  by (simp add: sparse_cd_def plain_env_def numeral_eq_Suc)

section \<open>Usage errors\<close>

text \<open>
  C7.  Every usage error is raised before any network activity and leaves the object
  (its four offsets and its record of requests included) as it was: \<^verbatim>\<open>read\<close> with
  both a size (a value above \<open>-1\<close>) and chars; \<^verbatim>\<open>read\<close> with chars when no encoding
  is configured; \<^verbatim>\<open>read\<close> with a size once the stream is in text mode, or with chars
  once it is in bytes mode; \<^verbatim>\<open>readinto\<close> and \<^verbatim>\<open>chunks\<close> once the stream is in text
  mode; \<^verbatim>\<open>readinto\<close> with a stream that is not seekable when \<open>max_concurrency > 1\<close>.
\<close>

theorem usage_errors:
  "(size0 > -1 \<and> chars \<noteq> None \<longrightarrow> read e s size0 chars = (Inl (ValueError BothSizeAndChars), s))
   \<and> (\<not> encoding s \<and> chars \<noteq> None \<longrightarrow> (\<exists>u. read e s size0 chars = (Inl (ValueError u), s)))
   \<and> (text_mode s = Some True \<and> size0 > -1 \<longrightarrow> (\<exists>u. read e s size0 chars = (Inl (ValueError u), s)))
   \<and> (text_mode s = Some False \<and> chars \<noteq> None \<longrightarrow> (\<exists>u. read e s size0 chars = (Inl (ValueError u), s)))
   \<and> (text_mode s = Some True \<longrightarrow> readinto e s st = (Inl (ValueError TextModeReadinto), s, st))
   \<and> (text_mode s = Some True \<longrightarrow> chunks s = Inl (ValueError TextModeChunks))
   \<and> (max_concurrency s > 1 \<and> \<not> seekable st \<longrightarrow> (\<exists>u. readinto e s st = (Inl (ValueError u), s, st)))"
  by (simp add: read_def readinto_def chunks_def)

theorem usage_errors_witness:
  "read demo_env (demo_session 1 True) 5 (Some 5) = (Inl (ValueError BothSizeAndChars), demo_session 1 True)
   \<and> (\<exists>u. read demo_env (demo_session 1 False) (-1) (Some 5) = (Inl (ValueError u), demo_session 1 False))
   \<and> (\<exists>u. read demo_env demo_text_session 2 None = (Inl (ValueError u), demo_text_session))
   \<and> (\<exists>u. read demo_env demo_bytes_session (-1) (Some 2) = (Inl (ValueError u), demo_bytes_session))
   \<and> readinto demo_env demo_text_session BytesIO = (Inl (ValueError TextModeReadinto), demo_text_session, BytesIO)
   \<and> chunks demo_text_session = Inl (ValueError TextModeChunks)
   \<and> (\<exists>u. readinto demo_env (demo_session 2 False) pipe_stream
             = (Inl (ValueError u), demo_session 2 False, pipe_stream))"
  using usage_errors[of 5 "Some 5" demo_env "demo_session 1 True" BytesIO]
    usage_errors[of "-1" "Some 5" demo_env "demo_session 1 False" BytesIO]
    usage_errors[of 2 None demo_env demo_text_session BytesIO]
    usage_errors[of "-1" "Some 2" demo_env demo_bytes_session BytesIO]
    usage_errors[of "-1" None demo_env "demo_session 2 False" pipe_stream]
    demo_text_mode demo_bytes_mode demo_session_config
  by (simp add: pipe_stream_def)

section \<open>Reading nothing\<close>

text \<open>
  C4, as the claim states it, fails: \<^verbatim>\<open>read(0)\<close> on a stream in text mode and
  \<^verbatim>\<open>read(chars=0)\<close> on a stream in bytes mode raise a \<^verbatim>\<open>ValueError\<close> instead of
  returning an empty result.
\<close>

theorem read_zero_cex:
  "fst (read demo_env demo_text_session 0 None) = Inl (ValueError TextModeUseChars)
   \<and> fst (read demo_env demo_bytes_session (-1) (Some 0)) = Inl (ValueError BytesModeUseSize)"
  using demo_text_mode demo_bytes_mode demo_encodings by (simp add: read_def)

text \<open>
  C4, amended.  \<^verbatim>\<open>read(0)\<close> and \<^verbatim>\<open>read(chars=0)\<close> leave the object as it was, so
  none of the four offsets advances; the result is empty unless the call is a usage
  error (\<^verbatim>\<open>read(0)\<close> in text mode; \<^verbatim>\<open>read(chars=0)\<close> without an encoding or in bytes
  mode), which raises.
\<close>

theorem read_zero:
  "snd (read e s 0 None) = s \<and> snd (read e s (-1) (Some 0)) = s
   \<and> fst (read e s 0 None) =
       (if text_mode s = Some True then Inl (ValueError TextModeUseChars) else Inr (empty_result s))
   \<and> fst (read e s (-1) (Some 0)) =
       (if \<not> encoding s then Inl (ValueError EncodingRequired)
        else if text_mode s = Some False then Inl (ValueError BytesModeUseSize)
        else Inr (empty_result s))"
  by (simp add: read_def)

theorem read_zero_witness:
  "read demo_env (demo_session 1 True) 0 None = (Inr (Text []), demo_session 1 True)
   \<and> read demo_env demo_text_session (-1) (Some 0) = (Inr (Text []), demo_text_session)"
  using read_zero[of demo_env "demo_session 1 True"] read_zero[of demo_env demo_text_session]
    demo_encodings demo_text_mode
  by (simp add: prod_eq_iff empty_result_def)

section \<open>The complete state\<close>




section \<open>The empty blob\<close>

text \<open>
  C6.  When the initial range request fails with status 416: if a start range was
  given the error is raised; if none was given a request without a range is made,
  and when it succeeds (and the page-range request of a page blob raises at most an
  \<^verbatim>\<open>HttpResponseError\<close>) the size is 0, the buffered content is empty, the
  session has issued the two requests (and the page-range request of a page blob)
  and \<^verbatim>\<open>readall\<close> returns the empty result at once, leaving the object, its record
  of requests included, as it was.
\<close>

theorem empty_blob_fallback:
  assumes "download e (Some (initial_range s)) = Inl (HttpResponseError 416 True)"
  shows "(start_range s \<noteq> None \<longrightarrow>
            initial_request e s
              = (Some (HttpResponseError 416 True),
                 s\<lparr>requests := requests s @ [Download (Some (initial_range s))]\<rparr>))
       \<and> (start_range s = None \<and> download e None = Inr resp \<and> 0 \<le> content_length resp
            \<and> (page_blob resp \<longrightarrow>
                  (\<exists>rs. get_page_ranges e = Inr rs)
                  \<or> (\<exists>c r. get_page_ranges e = Inl (HttpResponseError c r)))
            \<and> 0 \<le> download_offset s \<and> 0 \<le> raw_download_offset s
            \<and> 0 \<le> current_content_offset s \<longrightarrow>
          (\<exists>s'. initial_request e s = (None, s')
             \<and> total_size s' = 0 \<and> current_content s' = Bytes []
             \<and> requests s' = requests s @ [Download (Some (initial_range s)), Download None]
                               @ (if page_blob resp then [GetPageRanges] else [])
             \<and> readall e s' = (Inr (empty_result s'), s')))"
proof (intro conjI impI)
  assume "start_range s \<noteq> None"
  then show "initial_request e s
              = (Some (HttpResponseError 416 True),
                 s\<lparr>requests := requests s @ [Download (Some (initial_range s))]\<rparr>)"
    using assms by (auto simp add: initial_request_def Let_def)
next
  assume h: "start_range s = None \<and> download e None = Inr resp \<and> 0 \<le> content_length resp
            \<and> (page_blob resp \<longrightarrow>
                  (\<exists>rs. get_page_ranges e = Inr rs)
                  \<or> (\<exists>c r. get_page_ranges e = Inl (HttpResponseError c r)))
            \<and> 0 \<le> download_offset s \<and> 0 \<le> raw_download_offset s
            \<and> 0 \<le> current_content_offset s"
  define s2 where "s2 = s\<lparr>requests := requests s @ [Download (Some (initial_range s)), Download None],
                           total_size := 0, file_size := 0\<rparr>"
  have ir: "initial_request e s = finish_initial_request e s2 resp"
    using assms h by (simp add: initial_request_def Let_def s2_def)
  have "total_size s2 = 0" by (simp add: s2_def)
  from finish_initial_request_empty[OF this, of resp e] h
  obtain s' where s': "finish_initial_request e s2 resp = (None, s')"
      "total_size s' = 0" "current_content s' = Bytes []"
      "download_offset s' = download_offset s2"
      "raw_download_offset s' = raw_download_offset s2 + content_length resp"
      "current_content_offset s' = current_content_offset s2"
      "requests s' = requests s2 @ (if page_blob resp then [GetPageRanges] else [])"
    by blast
  have "download_complete s'"
    using s' h by (simp add: download_complete_def s2_def)
  moreover have "len (current_content s') \<le> current_content_offset s'"
    using s' h by (simp add: s2_def)
  ultimately have "readall e s' = (Inr (empty_result s'), s')"
    by (simp add: readall_def read_def)
  then show "\<exists>s'. initial_request e s = (None, s')
             \<and> total_size s' = 0 \<and> current_content s' = Bytes []
             \<and> requests s' = requests s @ [Download (Some (initial_range s)), Download None]
                               @ (if page_blob resp then [GetPageRanges] else [])
             \<and> readall e s' = (Inr (empty_result s'), s')"
    using ir s' by (simp add: s2_def)
qed

theorem empty_blob_fallback_witness:
  "fst (do_setup empty_env (init None None False 1 False 4 3)) = None
   \<and> total_size empty_session = 0 \<and> current_content empty_session = Bytes []
   \<and> requests empty_session = [Download (Some (0, 3)), Download None]
   \<and> readall empty_env empty_session = (Inr (Bytes []), empty_session)"
  using empty_blob_fallback[of empty_env empty_start
          "\<lparr>body = [], content_length = 0, content_range = None, page_blob = False\<rparr>"]
    empty_start_facts
  by (auto simp: empty_session_def empty_result_def)

section \<open>The concurrent scheduling loop bounds the tasks in flight\<close>

text \<open>
  C9.  For a plan of distinct chunk offsets and \<open>max_concurrency \<ge> 1\<close>, the scheduling
  loop of \<^verbatim>\<open>read\<close> and \<^verbatim>\<open>readinto\<close> never has more than \<open>max_concurrency\<close> tasks in
  flight (at every moment of the record of events, the tasks started exceed the tasks
  done by at most \<open>max_concurrency\<close>); it starts tasks for the offsets in the order of
  the plan, none twice; every task done was started; and when no task fails, a task
  was started for every offset of the plan and every offset was processed exactly
  once (\<open>Finished d\<close> is recorded right after the one call of \<^verbatim>\<open>process_chunk\<close> for
  \<open>d\<close>).
\<close>

theorem scheduler_bounded_once:
  assumes "1 \<le> max_conc" and "distinct offsets" and "cd_events cd = []"
    and "schedule_chunks e max_conc offsets cd = (res, cd')"
  shows "bounded max_conc (cd_events cd')
       \<and> (\<exists>k. started (cd_events cd') = take k offsets)
       \<and> mset (finished (cd_events cd')) \<subseteq># mset (started (cd_events cd'))
       \<and> (res = None \<longrightarrow> started (cd_events cd') = offsets
                          \<and> mset (finished (cd_events cd')) = mset offsets)"
proof -
  let ?n = "nat max_conc"
  let ?first = "take ?n offsets"
  have rc: "run_chunks e ?first (drop ?n offsets) (start_tasks ?first cd) = (res, cd')"
    using assms(1,4) by (simp add: schedule_chunks_def)
  have b0: "bounded max_conc []"
    using assms(1) by (simp add: bounded_def in_flight_def)
  have "bounded max_conc ([] @ map Started ?first)"
    using assms(1) by (intro bounded_started[OF b0]) (simp add: in_flight_def)
  then have "sched_inv max_conc offsets ?first (drop ?n offsets) (cd_events (start_tasks ?first cd))"
    using assms(1,2,3) by (simp add: sched_inv_def start_tasks_def)
  moreover have "?first = [] \<longrightarrow> drop ?n offsets = []"
    using assms(1) by (cases offsets) (auto simp: take_Cons' split: if_splits)
  ultimately have "sched_post max_conc offsets res (cd_events cd')"
    using run_chunks_post[OF _ rc] by blast
  then show ?thesis by (simp add: sched_post_def)
qed

theorem scheduler_bounded_once_witness:
  "fst (schedule_chunks demo_env 2 [0, 3, 6, 9] demo_cd) = None
   \<and> cd_events (snd (schedule_chunks demo_env 2 [0, 3, 6, 9] demo_cd))
       = [Started 0, Started 3, Finished 3, Finished 0, Started 6, Started 9,
          Finished 9, Finished 6]
   \<and> bounded 2 (cd_events (snd (schedule_chunks demo_env 2 [0, 3, 6, 9] demo_cd)))
   \<and> mset (finished (cd_events (snd (schedule_chunks demo_env 2 [0, 3, 6, 9] demo_cd))))
       = mset [0, 3, 6, 9]"
proof -
  have ev: "fst (schedule_chunks demo_env 2 [0, 3, 6, 9] demo_cd) = None"
    "cd_events (snd (schedule_chunks demo_env 2 [0, 3, 6, 9] demo_cd))
       = [Started 0, Started 3, Finished 3, Finished 0, Started 6, Started 9,
          Finished 9, Finished 6]"
    "cd_events demo_cd = []"
    by code_simp+
  have sc: "schedule_chunks demo_env 2 [0, 3, 6, 9] demo_cd
              = (None, snd (schedule_chunks demo_env 2 [0, 3, 6, 9] demo_cd))"
    using ev(1) by (simp add: prod_eq_iff)
  show ?thesis
    using scheduler_bounded_once[OF _ _ ev(3) sc] ev(1,2) by simp
qed

end
